theory Spec2Isabelle
  imports Main "HOL-Library.Sublist"
begin

section \<open>The routed SQL database of go-toolkit (package sql)\<close>

text \<open>
  The Go package keeps two connection pools, master and follower, behind one \<open>DB\<close>
  value. Go strings are modelled as \<^typ>\<open>string\<close> (a list of bytes), a Go \<open>error\<close> as
  \<^typ>\<open>string option\<close>: \<open>None\<close> is \<open>nil\<close>, \<open>Some m\<close> an error whose \<open>Error()\<close> is
  \<open>m\<close>. A \<open>*sqlx.DB\<close> is an address into a store of pools, so that two fields
  holding the same pointer are told apart from two pools with equal settings.
\<close>

type_synonym error = "string option"

type_synonym handle = nat

record DB =
  Master :: handle
  Follower :: handle
  master :: handle
  follower :: handle
  driver :: string
  defaultTimeout :: int

subsection \<open>insertDriver\<close>

text \<open>
  \<^verbatim>\<open>func (db *DB) insertDriver(driver string)\<close>: an equality chain on the driver
  name that stores the base driver in \<open>db.driver\<close>.
\<close>

definition insertDriver :: "DB \<Rightarrow> string \<Rightarrow> DB" where
  "insertDriver db drv =
     (if drv = ''nrpostgres'' then db\<lparr>driver := ''postgres''\<rparr>
      else if drv = ''nrmysql'' then db\<lparr>driver := ''mysql''\<rparr>
      else db\<lparr>driver := drv\<rparr>)"

subsection \<open>The outside world: driver, log sink and clock\<close>

text \<open>
  The SQL driver, the logging package and the clock are external. Every call the
  package makes to them is recorded, in order, in a trace; the pools that the driver
  hands out live in a store indexed by their address. What the driver answers is a
  parameter of the model (\<open>env\<close>):
  \<^item> \<open>connect_result env n ctx drv dsn\<close> is the error of the call
    \<^verbatim>\<open>sqlx.ConnectContext(ctx, drv, dsn)\<close> made after \<open>n\<close> earlier such calls
    (\<open>None\<close>: the pool was opened and answered the ping);
  \<^item> \<open>open_result env drv dsn\<close> is the error of \<^verbatim>\<open>sqlx.Open(drv, dsn)\<close>;
  \<^item> \<open>prepare_result env h q\<close> is the error of \<^verbatim>\<open>PreparexContext(ctx, q)\<close> on
    the pool \<open>h\<close>;
  \<^item> \<open>ping_result env h ctx k\<close> is what \<^verbatim>\<open>PingContext(ctx)\<close> on the pool \<open>h\<close>
    does when it is the \<open>k\<close>-th probe of a health check: it hands over its error at
    some time after the start of the check, or never returns.
  Durations are nanoseconds, as in \<^verbatim>\<open>time.Duration\<close>; points in time are
  nanoseconds since the start of the call.
\<close>

record ctx =
  deadline :: "nat option"

definition Background :: ctx where
  "Background = \<lparr>deadline = None\<rparr>"

text \<open>
  \<^verbatim>\<open>context.WithTimeout(parent, d)\<close>: the deadline is \<open>d\<close> from now (at once when
  \<open>d\<close> is not positive), unless the parent's deadline is earlier.
\<close>

definition WithTimeout :: "ctx \<Rightarrow> int \<Rightarrow> ctx" where
  "WithTimeout parent d =
     (case deadline parent of
        None \<Rightarrow> \<lparr>deadline = Some (nat d)\<rparr>
      | Some p \<Rightarrow> \<lparr>deadline = Some (min p (nat d))\<rparr>)"

datatype 'a timed = Never | At nat 'a

datatype event =
    ConnectCall string string
  | OpenCall string string
  | Warnf string
  | Errorf string
  | Sleep int
  | PrepareCall handle string
  | StmtExec handle string
  | StmtQuery handle string

record pool =
  driverName :: string
  dataSource :: string
  maxIdleConns :: "int option"
  maxOpenConns :: "int option"
  connMaxLifetime :: "int option"

record world =
  trace :: "event list"
  pools :: "pool list"

record env =
  connect_result :: "nat \<Rightarrow> ctx \<Rightarrow> string \<Rightarrow> string \<Rightarrow> error"
  open_result :: "string \<Rightarrow> string \<Rightarrow> error"
  prepare_result :: "handle \<Rightarrow> string \<Rightarrow> error"
  ping_result :: "handle \<Rightarrow> ctx \<Rightarrow> nat \<Rightarrow> error timed"

text \<open>A value, or the panic of a nil dereference.\<close>

datatype 'a outcome = Panic | Return 'a

definition Second :: int where
  "Second = 1000000000"

fun isConnectCall :: "event \<Rightarrow> bool" where
  "isConnectCall (ConnectCall _ _) = True"
| "isConnectCall _ = False"

fun isSleep :: "event \<Rightarrow> bool" where
  "isSleep (Sleep _) = True"
| "isSleep _ = False"

fun isErrorf :: "event \<Rightarrow> bool" where
  "isErrorf (Errorf _) = True"
| "isErrorf _ = False"

fun isWarnf :: "event \<Rightarrow> bool" where
  "isWarnf (Warnf _) = True"
| "isWarnf _ = False"

definition attempts :: "world \<Rightarrow> nat" where
  "attempts w = length (filter isConnectCall (trace w))"

definition emit :: "event \<Rightarrow> world \<Rightarrow> world" where
  "emit e w = w\<lparr>trace := trace w @ [e]\<rparr>"

definition newPool :: "string \<Rightarrow> string \<Rightarrow> pool" where
  "newPool drv dsn = \<lparr>driverName = drv, dataSource = dsn, maxIdleConns = None,
     maxOpenConns = None, connMaxLifetime = None\<rparr>"

text \<open>
  \<^verbatim>\<open>%d\<close> of \<^verbatim>\<open>fmt\<close>: the decimal digits of an integer, with a minus sign
  below zero.
\<close>

fun natstr :: "nat \<Rightarrow> string" where
  "natstr n = (if n < 10 then [''0123456789'' ! n]
               else natstr (n div 10) @ [''0123456789'' ! (n mod 10)])"

declare natstr.simps [simp del]

definition itoa :: "int \<Rightarrow> string" where
  "itoa i = (if i < 0 then CHR ''-'' # natstr (nat (- i)) else natstr (nat i))"

subsection \<open>connect and sqlx.Open\<close>

text \<open>
  \<^verbatim>\<open>func connect(ctx, driver, dsn)\<close> is \<^verbatim>\<open>sqlx.ConnectContext\<close>. The Go pair
  \<^verbatim>\<open>(*sqlx.DB, error)\<close> is a sum: \<open>Inr h\<close> is the new pool with a nil error,
  \<open>Inl e\<close> a nil pool with the error \<open>e\<close>.
\<close>

definition connect :: "env \<Rightarrow> ctx \<Rightarrow> string \<Rightarrow> string \<Rightarrow> world \<Rightarrow> (string + handle) \<times> world" where
  "connect env c drv dsn w =
     (let w1 = emit (ConnectCall drv dsn) w in
      case connect_result env (attempts w) c drv dsn of
        None \<Rightarrow> (Inr (length (pools w1)), w1\<lparr>pools := pools w1 @ [newPool drv dsn]\<rparr>)
      | Some e \<Rightarrow> (Inl e, w1))"

definition sqlx_Open :: "env \<Rightarrow> string \<Rightarrow> string \<Rightarrow> world \<Rightarrow> (string + handle) \<times> world" where
  "sqlx_Open env drv dsn w =
     (let w1 = emit (OpenCall drv dsn) w in
      case open_result env drv dsn of
        None \<Rightarrow> (Inr (length (pools w1)), w1\<lparr>pools := pools w1 @ [newPool drv dsn]\<rparr>)
      | Some e \<Rightarrow> (Inl e, w1))"

subsection \<open>getNoPassDSN\<close>

text \<open>
  \<^verbatim>\<open>dsnPasswordPattern = (password=[^\s]*\s*|$)|(:[^/][^@]*)\<close>, compiled by Go's
  \<^verbatim>\<open>regexp\<close>: leftmost-first matching, \<^verbatim>\<open>\s\<close> is tab, newline, form feed,
  carriage return and space, a negated class also matches a newline, and \<^verbatim>\<open>$\<close> is
  the end of the text. Every character the pattern tells apart is ASCII, so matching
  byte by byte and matching rune by rune give the same offsets.

  Each alternative is a function from the text at the current position to the length
  of its match there. All repetitions are greedy and nothing follows them inside their
  alternative, so each takes the longest run.
\<close>

definition isPerlSpace :: "char \<Rightarrow> bool" where
  "isPerlSpace c = (c = CHR 0x09 \<or> c = CHR 0x0A \<or> c = CHR 0x0C \<or> c = CHR 0x0D \<or> c = CHR '' '')"

text \<open>\<^verbatim>\<open>password=[^\s]*\s*\<close>\<close>

definition matchPassword :: "string \<Rightarrow> nat option" where
  "matchPassword s =
     (if prefix ''password='' s then
        (let r = drop 9 s;
             v = takeWhile (\<lambda>c. \<not> isPerlSpace c) r;
             sp = takeWhile isPerlSpace (drop (length v) r)
         in Some (9 + length v + length sp))
      else None)"

text \<open>\<^verbatim>\<open>$\<close>\<close>

definition matchEndOfText :: "string \<Rightarrow> nat option" where
  "matchEndOfText s = (if s = [] then Some 0 else None)"

text \<open>\<^verbatim>\<open>:[^/][^@]*\<close>\<close>

definition matchUserinfo :: "string \<Rightarrow> nat option" where
  "matchUserinfo s =
     (case s of
        c # d # r \<Rightarrow>
          if c = CHR '':'' \<and> d \<noteq> CHR ''/''
          then Some (2 + length (takeWhile (\<lambda>x. x \<noteq> CHR ''@'') r))
          else None
      | _ \<Rightarrow> None)"

text \<open>The whole pattern at one position: the alternatives in the order they are written.\<close>

definition matchHere :: "string \<Rightarrow> nat option" where
  "matchHere s =
     (case matchPassword s of
        Some n \<Rightarrow> Some n
      | None \<Rightarrow>
          (case matchEndOfText s of
             Some n \<Rightarrow> Some n
           | None \<Rightarrow> matchUserinfo s))"

text \<open>
  \<^verbatim>\<open>dsnPasswordPattern.ReplaceAllString(dsn, "")\<close>: the text is scanned from the
  left; at the first position where the pattern matches, the match is dropped and the
  scan goes on behind it (one character further after an empty match); a character at
  which nothing matches is copied.
\<close>

function ReplaceAllString :: "string \<Rightarrow> string" where
  "ReplaceAllString s =
     (case matchHere s of
        Some n \<Rightarrow>
          if 0 < n then ReplaceAllString (drop n s)
          else (case s of [] \<Rightarrow> [] | c # cs \<Rightarrow> c # ReplaceAllString cs)
      | None \<Rightarrow> (case s of [] \<Rightarrow> [] | c # cs \<Rightarrow> c # ReplaceAllString cs))"
  by pat_completeness auto
termination
proof (relation "measure length")
  show "wf (measure length)" by simp
next
  fix s :: string and n :: nat
  assume "matchHere s = Some n" "0 < n"
  moreover have "matchHere [] = Some 0"
    by (simp add: matchHere_def matchPassword_def matchEndOfText_def)
  ultimately have "s \<noteq> []" by auto
  with \<open>0 < n\<close> show "(drop n s, s) \<in> measure length" by simp
qed simp_all

declare ReplaceAllString.simps [simp del]

text \<open>
  \<^verbatim>\<open>strings.TrimSpace\<close> cuts, at both ends, every rune for which
  \<^verbatim>\<open>unicode.IsSpace\<close> holds. The runes are listed by their UTF-8 encodings: the six
  ASCII ones, U+0085, U+00A0, U+1680, U+2000 to U+200A, U+2028, U+2029, U+202F, U+205F
  and U+3000.
\<close>

definition unicodeSpaces :: "string list" where
  "unicodeSpaces =
     [[CHR 0x09], [CHR 0x0A], [CHR 0x0B], [CHR 0x0C], [CHR 0x0D], [CHR 0x20],
      [CHR 0xC2, CHR 0x85], [CHR 0xC2, CHR 0xA0], [CHR 0xE1, CHR 0x9A, CHR 0x80],
      [CHR 0xE2, CHR 0x80, CHR 0x80], [CHR 0xE2, CHR 0x80, CHR 0x81],
      [CHR 0xE2, CHR 0x80, CHR 0x82], [CHR 0xE2, CHR 0x80, CHR 0x83],
      [CHR 0xE2, CHR 0x80, CHR 0x84], [CHR 0xE2, CHR 0x80, CHR 0x85],
      [CHR 0xE2, CHR 0x80, CHR 0x86], [CHR 0xE2, CHR 0x80, CHR 0x87],
      [CHR 0xE2, CHR 0x80, CHR 0x88], [CHR 0xE2, CHR 0x80, CHR 0x89],
      [CHR 0xE2, CHR 0x80, CHR 0x8A], [CHR 0xE2, CHR 0x80, CHR 0xA8],
      [CHR 0xE2, CHR 0x80, CHR 0xA9], [CHR 0xE2, CHR 0x80, CHR 0xAF],
      [CHR 0xE2, CHR 0x81, CHR 0x9F], [CHR 0xE3, CHR 0x80, CHR 0x80]]"

function trimLeft :: "string list \<Rightarrow> string \<Rightarrow> string" where
  "trimLeft sps s =
     (case find (\<lambda>sp. sp \<noteq> [] \<and> prefix sp s) sps of
        Some sp \<Rightarrow> trimLeft sps (drop (length sp) s)
      | None \<Rightarrow> s)"
  by pat_completeness auto
termination
proof (relation "measure (\<lambda>(sps, s). length s)")
  show "wf (measure (\<lambda>(sps, s). length s))" by simp
next
  fix sps :: "string list" and s sp :: string
  assume "find (\<lambda>sp. sp \<noteq> [] \<and> prefix sp s) sps = Some sp"
  then have "sp \<noteq> []" "prefix sp s"
    by (auto simp: find_Some_iff)
  then obtain c r where "sp = c # r" "length sp \<le> length s"
    by (cases sp) (auto simp: prefix_def)
  then show "((sps, drop (length sp) s), (sps, s)) \<in> measure (\<lambda>(sps, s). length s)"
    by simp
qed

declare trimLeft.simps [simp del]

definition TrimSpace :: "string \<Rightarrow> string" where
  "TrimSpace s = rev (trimLeft (map rev unicodeSpaces) (rev (trimLeft unicodeSpaces s)))"

text \<open>\<^verbatim>\<open>func getNoPassDSN(dsn string) string\<close>\<close>

definition getNoPassDSN :: "string \<Rightarrow> string" where
  "getNoPassDSN dsn = TrimSpace (ReplaceAllString dsn)"

subsection \<open>connectWithRetry and openOrConnect\<close>

text \<open>
  The loop \<^verbatim>\<open>for x := 0; x < retry; x++\<close> of \<open>connectWithRetry\<close>. It leaves either
  by the \<^verbatim>\<open>return db, nil\<close> inside (\<open>Inr h\<close>), or by its condition, with the
  variable \<open>err\<close> as the last attempt left it (\<open>Inl err\<close>). \<open>x\<close> and \<open>retry\<close> are Go
  \<open>int\<close>s; \<open>x + 1\<close> is at most \<open>retry\<close>, so it never wraps, and unbounded integers
  compute the same.
\<close>

function retryLoop ::
  "env \<Rightarrow> ctx \<Rightarrow> string \<Rightarrow> string \<Rightarrow> string \<Rightarrow> int \<Rightarrow> int \<Rightarrow> error \<Rightarrow> world \<Rightarrow> (error + handle) \<times> world"
where
  "retryLoop env c drv dsn noPassDSN retry x err w =
     (if x < retry then
        (case connect env c drv dsn w of
           (Inr db, w1) \<Rightarrow> (Inr db, w1)
         | (Inl e, w1) \<Rightarrow>
             (let w2 = emit (Warnf (''SQLDB: failed to connect to '' @ noPassDSN
                                    @ '' with error '' @ e)) w1;
                  w3 = (if x + 1 < retry
                        then emit (Sleep (Second * 3))
                               (emit (Warnf (''sqldb: retrying to connect to '' @ noPassDSN
                                             @ ''. Retry: '' @ itoa (x + 1))) w2)
                        else w2)
              in retryLoop env c drv dsn noPassDSN retry (x + 1) (Some e) w3))
      else (Inl err, w))"
  by pat_completeness auto
termination
  by (relation "measure (\<lambda>(env, c, drv, dsn, noPassDSN, retry, x, err, w). nat (retry - x))") auto

declare retryLoop.simps [simp del]

text \<open>
  \<^verbatim>\<open>func connectWithRetry(ctx, driver, dsn, retry)\<close>. After the loop the code calls
  \<^verbatim>\<open>err.Error()\<close>, which panics when \<open>err\<close> is nil.
\<close>

definition connectWithRetry ::
  "env \<Rightarrow> ctx \<Rightarrow> string \<Rightarrow> string \<Rightarrow> int \<Rightarrow> world \<Rightarrow> (string + handle) outcome \<times> world"
where
  "connectWithRetry env c drv dsn retry0 w =
     (let noPassDSN = getNoPassDSN dsn;
          retry = (if retry0 \<le> 0 then 1 else retry0)
      in case retryLoop env c drv dsn noPassDSN retry 0 None w of
           (Inr db, w1) \<Rightarrow> (Return (Inr db), w1)
         | (Inl None, w1) \<Rightarrow> (Panic, w1)
         | (Inl (Some e), w1) \<Rightarrow>
             (Return (Inl (''failed connect to database: '' @ e)),
              emit (Errorf (''sqldb: retry time exhausted, cannot connect to database: '' @ e)) w1))"

definition openOrConnect ::
  "env \<Rightarrow> ctx \<Rightarrow> string \<Rightarrow> string \<Rightarrow> int \<Rightarrow> bool \<Rightarrow> world \<Rightarrow> (string + handle) outcome \<times> world"
where
  "openOrConnect env c drv dsn retry noPing w =
     (if noPing then (case sqlx_Open env drv dsn w of (r, w1) \<Rightarrow> (Return r, w1))
      else connectWithRetry env c drv dsn retry w)"

subsection \<open>The routed database\<close>

record DBConfig =
  Driver :: string
  MasterDSN :: string
  FollowerDSN :: string
  MaxOpenConnections :: int
  MaxIdleConnections :: int
  ConnectionMaxLifetime :: int
  Retry :: int
  NoPingOnOpen :: bool

definition newFromSqlxDB :: "handle \<Rightarrow> handle \<Rightarrow> DB" where
  "newFromSqlxDB masterDB followerDB =
     \<lparr>Master = masterDB, Follower = followerDB, master = masterDB, follower = followerDB,
      driver = [], defaultTimeout = 3 * Second\<rparr>"

definition NewFromDB :: "handle \<Rightarrow> handle \<Rightarrow> string \<Rightarrow> DB" where
  "NewFromDB masterDB followerDB drv = insertDriver (newFromSqlxDB masterDB followerDB) drv"

text \<open>
  The pool setters write to the master pool, then to the follower pool; with one
  pool behind both fields the second write lands on the same pool.
\<close>

definition setPool :: "handle \<Rightarrow> (pool \<Rightarrow> pool) \<Rightarrow> world \<Rightarrow> world" where
  "setPool h f w = w\<lparr>pools := (pools w)[h := f (pools w ! h)]\<rparr>"

definition SetMaxIdleConns :: "DB \<Rightarrow> int \<Rightarrow> world \<Rightarrow> world" where
  "SetMaxIdleConns db n w =
     setPool (follower db) (\<lambda>p. p\<lparr>maxIdleConns := Some n\<rparr>)
       (setPool (master db) (\<lambda>p. p\<lparr>maxIdleConns := Some n\<rparr>) w)"

definition SetMaxOpenConns :: "DB \<Rightarrow> int \<Rightarrow> world \<Rightarrow> world" where
  "SetMaxOpenConns db n w =
     setPool (follower db) (\<lambda>p. p\<lparr>maxOpenConns := Some n\<rparr>)
       (setPool (master db) (\<lambda>p. p\<lparr>maxOpenConns := Some n\<rparr>) w)"

definition SetConnMaxLifetime :: "DB \<Rightarrow> int \<Rightarrow> world \<Rightarrow> world" where
  "SetConnMaxLifetime db t w =
     setPool (follower db) (\<lambda>p. p\<lparr>connMaxLifetime := Some t\<rparr>)
       (setPool (master db) (\<lambda>p. p\<lparr>connMaxLifetime := Some t\<rparr>) w)"

definition GetMaster :: "DB \<Rightarrow> handle" where
  "GetMaster db = master db"

definition GetFollower :: "DB \<Rightarrow> handle" where
  "GetFollower db = follower db"

text \<open>
  \<^verbatim>\<open>func Connect(ctx, cfg) (*DB, error)\<close>. \<open>tune\<close> is its tail, from
  \<open>newFromSqlxDB\<close> on.
\<close>

definition tune :: "DBConfig \<Rightarrow> handle \<Rightarrow> handle \<Rightarrow> world \<Rightarrow> DB \<times> world" where
  "tune cfg masterdb followerdb w =
     (let db = insertDriver (newFromSqlxDB masterdb followerdb) (Driver cfg);
          w1 = (if MaxIdleConnections cfg > 0
                then SetMaxIdleConns db (MaxIdleConnections cfg) w else w);
          w2 = (if MaxOpenConnections cfg > 0
                then SetMaxOpenConns db (MaxOpenConnections cfg) w1 else w1);
          w3 = (if ConnectionMaxLifetime cfg > 0
                then SetConnMaxLifetime db (ConnectionMaxLifetime cfg) w2 else w2)
      in (db, w3))"

definition Connect :: "env \<Rightarrow> ctx \<Rightarrow> DBConfig \<Rightarrow> world \<Rightarrow> (string + DB) outcome \<times> world" where
  "Connect env c cfg w =
     (case openOrConnect env c (Driver cfg) (MasterDSN cfg) (Retry cfg) (NoPingOnOpen cfg) w of
        (Panic, w1) \<Rightarrow> (Panic, w1)
      | (Return (Inl err), w1) \<Rightarrow> (Return (Inl err), w1)
      | (Return (Inr masterdb), w1) \<Rightarrow>
          (if FollowerDSN cfg \<noteq> [] then
             (case openOrConnect env c (Driver cfg) (FollowerDSN cfg) (Retry cfg)
                     (NoPingOnOpen cfg) w1 of
                (Panic, w2) \<Rightarrow> (Panic, w2)
              | (Return (Inl err), w2) \<Rightarrow> (Return (Inl err), w2)
              | (Return (Inr followerdb), w2) \<Rightarrow>
                  (case tune cfg masterdb followerdb w2 of (db, w3) \<Rightarrow> (Return (Inr db), w3)))
           else
             (case tune cfg masterdb masterdb w1 of (db, w3) \<Rightarrow> (Return (Inr db), w3))))"

subsection \<open>Prepared statements\<close>

text \<open>
  \<^verbatim>\<open>PreparexContext\<close> of a pool gives a \<^verbatim>\<open>*sqlx.Stmt\<close> that belongs to that pool;
  \<open>PrepareWrite\<close> hands it out as a \<open>WriteStatement\<close>, \<open>PrepareRead\<close> as a
  \<open>ReadStatement\<close>. \<open>WriteStatement_ExecContext\<close> is the one execute method of a write
  statement; \<open>ReadStatement_QueryContext\<close> stands for the read methods
  (\<open>GetContext\<close>, \<open>SelectContext\<close>, \<open>QueryContext\<close>, \<open>QueryRowContext\<close>,
  \<open>QueryRowxContext\<close>, \<open>QueryxContext\<close>), which all run the statement on its pool.
\<close>

record Stmt =
  stmt_db :: handle
  stmt_query :: string

definition PreparexContext :: "env \<Rightarrow> handle \<Rightarrow> ctx \<Rightarrow> string \<Rightarrow> world \<Rightarrow> (string + Stmt) \<times> world" where
  "PreparexContext env h c query w =
     (let w1 = emit (PrepareCall h query) w in
      case prepare_result env h query of
        None \<Rightarrow> (Inr \<lparr>stmt_db = h, stmt_query = query\<rparr>, w1)
      | Some e \<Rightarrow> (Inl e, w1))"

definition PrepareWrite :: "env \<Rightarrow> DB \<Rightarrow> ctx \<Rightarrow> string \<Rightarrow> world \<Rightarrow> (string + Stmt) \<times> world" where
  "PrepareWrite env db c query w = PreparexContext env (master db) c query w"

definition PrepareRead :: "env \<Rightarrow> DB \<Rightarrow> ctx \<Rightarrow> string \<Rightarrow> world \<Rightarrow> (string + Stmt) \<times> world" where
  "PrepareRead env db c query w = PreparexContext env (follower db) c query w"

definition WriteStatement_ExecContext :: "Stmt \<Rightarrow> world \<Rightarrow> world" where
  "WriteStatement_ExecContext st w = emit (StmtExec (stmt_db st) (stmt_query st)) w"

definition ReadStatement_QueryContext :: "Stmt \<Rightarrow> world \<Rightarrow> world" where
  "ReadStatement_QueryContext st w = emit (StmtQuery (stmt_db st) (stmt_query st)) w"

subsection \<open>Ping and PingContext\<close>

text \<open>
  \<open>PingContext\<close> starts two goroutines that send the result of their probe on the
  channel \<open>errCh\<close> (capacity 2), and receives from it up to twice. A channel hands
  values over in the order they were sent, so what the receiver sees is the probe
  results ordered by the time they were sent; a probe that never returns sends
  nothing. When both are sent at the same moment, either may be first: \<open>tie\<close> says
  which.
\<close>

datatype arrival = MasterFirst | FollowerFirst

fun errCh :: "error timed \<Rightarrow> error timed \<Rightarrow> arrival \<Rightarrow> (nat \<times> error) list" where
  "errCh (At tm em) (At tf ef) tie =
     (if tm < tf \<or> (tm = tf \<and> tie = MasterFirst)
      then [(tm, em), (tf, ef)] else [(tf, ef), (tm, em)])"
| "errCh (At tm em) Never tie = [(tm, em)]"
| "errCh Never (At tf ef) tie = [(tf, ef)]"
| "errCh Never Never tie = []"

text \<open>
  \<^verbatim>\<open>for i := 0; i < 2; i++ { err := <-errCh; if err != nil { return err } }; return nil\<close>.
  A receive ends when the value has been sent; on a channel nobody will send on any
  more it never ends. \<open>now\<close> is the time the loop has reached.
\<close>

fun recvLoop :: "nat \<Rightarrow> (nat \<times> error) list \<Rightarrow> nat \<Rightarrow> error timed" where
  "recvLoop i ch now =
     (if i < 2 then
        (case ch of
           [] \<Rightarrow> Never
         | (t, err) # rest \<Rightarrow>
             (case err of
                Some e \<Rightarrow> At (max now t) (Some e)
              | None \<Rightarrow> recvLoop (i + 1) rest (max now t)))
      else At now None)"

declare recvLoop.simps [simp del]

definition PingContext :: "env \<Rightarrow> arrival \<Rightarrow> DB \<Rightarrow> ctx \<Rightarrow> error timed" where
  "PingContext env tie db c =
     (let m = ping_result env (master db) c 0;
          f = ping_result env (follower db) c 1
      in recvLoop 0 (errCh m f tie) 0)"

definition Ping :: "env \<Rightarrow> arrival \<Rightarrow> DB \<Rightarrow> error timed" where
  "Ping env tie db = PingContext env tie db (WithTimeout Background (defaultTimeout db))"

subsection \<open>Reading a trace\<close>

text \<open>
  What \<open>n\<close> attempts with a pause between each two of them leave in a trace, once
  the log lines are taken out: attempt, pause, attempt, ..., attempt.
\<close>

definition attemptsAndDelays :: "string \<Rightarrow> string \<Rightarrow> nat \<Rightarrow> event list" where
  "attemptsAndDelays drv dsn n =
     concat (replicate (n - 1) [ConnectCall drv dsn, Sleep (Second * 3)])
     @ (if 0 < n then [ConnectCall drv dsn] else [])"

subsection \<open>Two environments and an empty world\<close>

text \<open>
  \<open>unreachable\<close>: every connection attempt is refused. \<open>reachable\<close>: every call
  succeeds, every probe answers at once. \<open>bothDown\<close>: the pool at address 0 answers
  a probe after two seconds with an error, the pool at address 1 after one second with
  another.
\<close>

definition unreachable :: env where
  "unreachable =
     \<lparr>connect_result = (\<lambda>n c drv dsn. Some ''connection refused''),
      open_result = (\<lambda>drv dsn. None),
      prepare_result = (\<lambda>h q. None),
      ping_result = (\<lambda>h c k. At 0 None)\<rparr>"

definition reachable :: env where
  "reachable =
     \<lparr>connect_result = (\<lambda>n c drv dsn. None),
      open_result = (\<lambda>drv dsn. None),
      prepare_result = (\<lambda>h q. None),
      ping_result = (\<lambda>h c k. At 0 None)\<rparr>"

definition bothDown :: env where
  "bothDown =
     \<lparr>connect_result = (\<lambda>n c drv dsn. None),
      open_result = (\<lambda>drv dsn. None),
      prepare_result = (\<lambda>h q. None),
      ping_result = (\<lambda>h c k. if h = 0 then At 2000000000 (Some ''master down'')
                               else At 1000000000 (Some ''follower down''))\<rparr>"

definition emptyWorld :: world where
  "emptyWorld = \<lparr>trace = [], pools = []\<rparr>"

text \<open>
  What the health check takes from \<^verbatim>\<open>database/sql\<close>: a probe that is given a context
  with a deadline returns by that deadline. \<open>hanging\<close> is such a driver whose probes
  do not return at all unless the deadline makes them.
\<close>

definition honoursDeadline :: "env \<Rightarrow> bool" where
  "honoursDeadline env =
     (\<forall>h c k d. deadline c = Some d \<longrightarrow> (\<exists>t e. ping_result env h c k = At t e \<and> t \<le> d))"

definition hanging :: env where
  "hanging =
     \<lparr>connect_result = (\<lambda>n c drv dsn. None),
      open_result = (\<lambda>drv dsn. None),
      prepare_result = (\<lambda>h q. None),
      ping_result = (\<lambda>h c k. case deadline c of
                                None \<Rightarrow> Never
                              | Some d \<Rightarrow> At d (Some ''context deadline exceeded''))\<rparr>"

text \<open>
  Nothing in this package makes a probe follow that rule. \<open>deaf\<close> is a driver whose
  probes ignore the context they are given: the pool at address 0 never answers, every
  other pool answers without error after ten seconds.
\<close>

definition deaf :: env where
  "deaf =
     \<lparr>connect_result = (\<lambda>n c drv dsn. None),
      open_result = (\<lambda>drv dsn. None),
      prepare_result = (\<lambda>h q. None),
      ping_result = (\<lambda>h c k. if h = 0 then Never else At 10000000000 None)\<rparr>"

section \<open>Properties\<close>

subsection \<open>Driver-name normalisation\<close>

text \<open>
  C6. Driver-name normalisation is total and idempotent: \<open>nrpostgres\<close> is stored as
  \<open>postgres\<close>, \<open>nrmysql\<close> as \<open>mysql\<close>, every other name as itself, and normalising
  the stored name once more stores the same name, whatever the driver field held
  before.
\<close>

theorem insertDriver_normalises:
  "driver (insertDriver db ''nrpostgres'') = ''postgres''
   \<and> driver (insertDriver db ''nrmysql'') = ''mysql''
   \<and> (d \<noteq> ''nrpostgres'' \<and> d \<noteq> ''nrmysql'' \<longrightarrow> driver (insertDriver db d) = d)
   \<and> driver (insertDriver db' (driver (insertDriver db d))) = driver (insertDriver db d)"
  by (simp add: insertDriver_def)

theorem insertDriver_normalises_witness:
  "''sqlite3'' \<noteq> ''nrpostgres'' \<and> ''sqlite3'' \<noteq> ''nrmysql''
   \<and> driver (insertDriver \<lparr>Master = 0, Follower = 0, master = 0, follower = 0,
             driver = [], defaultTimeout = 0\<rparr> ''sqlite3'') = ''sqlite3''"
  using insertDriver_normalises
    [of "\<lparr>Master = 0, Follower = 0, master = 0, follower = 0, driver = [], defaultTimeout = 0\<rparr>"
        "''sqlite3''"]
  by simp

subsection \<open>The retry loop\<close>

lemma trace_emit [simp]: "trace (emit e w) = trace w @ [e]"
  by (simp add: emit_def)

lemma pools_emit [simp]: "pools (emit e w) = pools w"
  by (simp add: emit_def)

lemma attempts_emit [simp]: "attempts (emit e w) = attempts w + (if isConnectCall e then 1 else 0)"
  by (simp add: attempts_def)

lemma connect_fails:
  "connect_result env (attempts w) c drv dsn = Some e \<Longrightarrow>
   connect env c drv dsn w = (Inl e, emit (ConnectCall drv dsn) w)"
  by (simp add: connect_def)

lemma attemptsAndDelays_Suc:
  "attemptsAndDelays drv dsn (Suc (Suc m)) =
     ConnectCall drv dsn # Sleep (Second * 3) # attemptsAndDelays drv dsn (Suc m)"
  by (simp add: attemptsAndDelays_def)


text \<open>
  The loop against a target that refuses every attempt, started at any \<open>x \<le> retry\<close>:
  it makes \<open>retry - x\<close> attempts, pauses three seconds after each but the last,
  writes no error line, opens no pool, and leaves with the error of its last attempt.
\<close>

lemma retryLoop_exhausted:
  "(\<forall>n. connect_result env n c drv dsn \<noteq> None) \<Longrightarrow> x \<le> retry \<Longrightarrow>
    (\<exists>w'. retryLoop env c drv dsn np retry x err w =
        (Inl (if x < retry
              then connect_result env (attempts w + nat (retry - x) - 1) c drv dsn
              else err), w')
      \<and> attempts w' = attempts w + nat (retry - x)
      \<and> filter isSleep (trace w') =
          filter isSleep (trace w) @ replicate (nat (retry - x) - 1) (Sleep (Second * 3))
      \<and> filter (\<lambda>e. isConnectCall e \<or> isSleep e) (trace w') =
          filter (\<lambda>e. isConnectCall e \<or> isSleep e) (trace w)
          @ attemptsAndDelays drv dsn (nat (retry - x))
      \<and> filter isErrorf (trace w') = filter isErrorf (trace w)
      \<and> length (filter isWarnf (trace w')) =
          length (filter isWarnf (trace w)) + (2 * nat (retry - x) - 1)
      \<and> pools w' = pools w)"
proof (induction env c drv dsn np retry x err w rule: retryLoop.induct)
  case (1 env c drv dsn np retry x err w)
  show ?case
  proof (cases "x < retry")
    case False
    with "1.prems" have "x = retry" by simp
    then show ?thesis by (simp add: retryLoop.simps attemptsAndDelays_def)
  next
    case True
    from "1.prems"(1) obtain e where e: "connect_result env (attempts w) c drv dsn = Some e"
      by blast
    define w1 where "w1 = emit (ConnectCall drv dsn) w"
    define w2 where "w2 = emit (Warnf (''SQLDB: failed to connect to '' @ np @ '' with error '' @ e)) w1"
    define w3 where "w3 = (if x + 1 < retry
                        then emit (Sleep (Second * 3))
                               (emit (Warnf (''sqldb: retrying to connect to '' @ np
                                             @ ''. Retry: '' @ itoa (x + 1))) w2)
                        else w2)"
    have c1: "connect env c drv dsn w = (Inl e, w1)"
      using e by (simp add: connect_fails w1_def)
    have unfold: "retryLoop env c drv dsn np retry x err w
        = retryLoop env c drv dsn np retry (x + 1) (Some e) w3"
      using True c1 by (subst retryLoop.simps) (simp add: w2_def w3_def Let_def)
    have IH: "\<exists>w'. retryLoop env c drv dsn np retry (x + 1) (Some e) w3 =
        (Inl (if x + 1 < retry
              then connect_result env (attempts w3 + nat (retry - (x + 1)) - 1) c drv dsn
              else Some e), w')
      \<and> attempts w' = attempts w3 + nat (retry - (x + 1))
      \<and> filter isSleep (trace w') =
          filter isSleep (trace w3) @ replicate (nat (retry - (x + 1)) - 1) (Sleep (Second * 3))
      \<and> filter (\<lambda>e. isConnectCall e \<or> isSleep e) (trace w') =
          filter (\<lambda>e. isConnectCall e \<or> isSleep e) (trace w3)
          @ attemptsAndDelays drv dsn (nat (retry - (x + 1)))
      \<and> filter isErrorf (trace w') = filter isErrorf (trace w3)
      \<and> length (filter isWarnf (trace w')) =
          length (filter isWarnf (trace w3)) + (2 * nat (retry - (x + 1)) - 1)
      \<and> pools w' = pools w3"
      using "1.IH"[OF True c1[symmetric] refl w2_def w3_def "1.prems"(1)] True
      by simp
    have a3: "attempts w3 = attempts w + 1"
      by (simp add: w3_def w2_def w1_def)
    have s3: "filter isSleep (trace w3) =
        filter isSleep (trace w) @ (if x + 1 < retry then [Sleep (Second * 3)] else [])"
      by (simp add: w3_def w2_def w1_def)
    have cs3: "filter (\<lambda>e. isConnectCall e \<or> isSleep e) (trace w3) =
        filter (\<lambda>e. isConnectCall e \<or> isSleep e) (trace w)
        @ ConnectCall drv dsn # (if x + 1 < retry then [Sleep (Second * 3)] else [])"
      by (simp add: w3_def w2_def w1_def)
    have e3: "filter isErrorf (trace w3) = filter isErrorf (trace w)"
      by (simp add: w3_def w2_def w1_def)
    have n3: "length (filter isWarnf (trace w3)) =
        length (filter isWarnf (trace w)) + (if x + 1 < retry then 2 else 1)"
      by (simp add: w3_def w2_def w1_def)
    have p3: "pools w3 = pools w"
      by (simp add: w3_def w2_def w1_def)
    from IH obtain w' where w':
      "retryLoop env c drv dsn np retry (x + 1) (Some e) w3 =
        (Inl (if x + 1 < retry
              then connect_result env (attempts w3 + nat (retry - (x + 1)) - 1) c drv dsn
              else Some e), w')"
      "attempts w' = attempts w3 + nat (retry - (x + 1))"
      "filter isSleep (trace w') =
          filter isSleep (trace w3) @ replicate (nat (retry - (x + 1)) - 1) (Sleep (Second * 3))"
      "filter (\<lambda>e. isConnectCall e \<or> isSleep e) (trace w') =
          filter (\<lambda>e. isConnectCall e \<or> isSleep e) (trace w3)
          @ attemptsAndDelays drv dsn (nat (retry - (x + 1)))"
      "filter isErrorf (trace w') = filter isErrorf (trace w3)"
      "length (filter isWarnf (trace w')) =
          length (filter isWarnf (trace w3)) + (2 * nat (retry - (x + 1)) - 1)"
      "pools w' = pools w3"
      by blast
    show ?thesis
    proof (cases "x + 1 < retry")
      case more: True
      have "0 < nat (retry - (x + 1))" using more by simp
      then obtain m where m1: "nat (retry - (x + 1)) = Suc m"
        by (cases "nat (retry - (x + 1))") auto
      have "nat (retry - x) = Suc (nat (retry - (x + 1)))"
        using more by arith
      with m1 have m: "nat (retry - (x + 1)) = Suc m" "nat (retry - x) = Suc (Suc m)"
        by simp_all
      show ?thesis
        using w' more True
        by (simp add: unfold a3 s3 cs3 e3 n3 p3 m replicate_append_same attemptsAndDelays_Suc)
    next
      case last: False
      with True have r: "retry = x + 1" by simp
      have stop: "retryLoop env c drv dsn np (x + 1) (x + 1) (Some e) w3 = (Inl (Some e), w3)"
        by (simp add: retryLoop.simps)
      show ?thesis
        using e by (simp add: unfold[unfolded r] r stop a3 s3[unfolded r] cs3[unfolded r] e3 n3[unfolded r] p3 attemptsAndDelays_def)
    qed
  qed
qed


text \<open>The loop never leaves with a nil error once it has been entered.\<close>

lemma retryLoop_nil_error:
  "retryLoop env c drv dsn np retry x err w = (Inl None, w') \<Longrightarrow> err = None \<and> \<not> x < retry"
proof (induction env c drv dsn np retry x err w rule: retryLoop.induct)
  case (1 env c drv dsn np retry x err w)
  show ?case
  proof (cases "x < retry")
    case False
    with "1.prems" show ?thesis by (simp add: retryLoop.simps)
  next
    case True
    obtain r w1 where c1: "connect env c drv dsn w = (r, w1)" by (cases "connect env c drv dsn w")
    show ?thesis
    proof (cases r)
      case (Inr db)
      with "1.prems" True c1 show ?thesis by (simp add: retryLoop.simps)
    next
      case (Inl e)
      define w2 where "w2 = emit (Warnf (''SQLDB: failed to connect to '' @ np @ '' with error '' @ e)) w1"
      define w3 where "w3 = (if x + 1 < retry
                        then emit (Sleep (Second * 3))
                               (emit (Warnf (''sqldb: retrying to connect to '' @ np
                                             @ ''. Retry: '' @ itoa (x + 1))) w2)
                        else w2)"
      have c1': "connect env c drv dsn w = (Inl e, w1)" using c1 Inl by simp
      have unfold: "retryLoop env c drv dsn np retry x err w
          = retryLoop env c drv dsn np retry (x + 1) (Some e) w3"
        using True c1' by (subst retryLoop.simps) (simp add: w2_def w3_def Let_def)
      with "1.prems" have "retryLoop env c drv dsn np retry (x + 1) (Some e) w3 = (Inl None, w')"
        by simp
      from "1.IH"[OF True c1'[symmetric] refl w2_def w3_def this] show ?thesis by simp
    qed
  qed
qed

lemma connectWithRetry_no_panic:
  "fst (connectWithRetry env c drv dsn r w) \<noteq> Panic"
proof -
  define retry where "retry = (if r \<le> 0 then 1 else r)"
  have pos: "0 < retry" by (simp add: retry_def)
  obtain res w1 where l: "retryLoop env c drv dsn (getNoPassDSN dsn) retry 0 None w = (res, w1)"
    by (cases "retryLoop env c drv dsn (getNoPassDSN dsn) retry 0 None w")
  have "res \<noteq> Inl None"
    using retryLoop_nil_error[of env c drv dsn "getNoPassDSN dsn" retry 0 None w w1] l pos by auto
  then show ?thesis
    using l by (auto simp: connectWithRetry_def Let_def retry_def[symmetric] split: sum.splits option.splits)
qed


text \<open>
  C2. For every retry count \<open>r\<close> and a target that refuses every attempt,
  \<open>connectWithRetry\<close> makes exactly \<open>max r 1\<close> attempts (one when \<open>r \<le> 0\<close>) and
  sleeps exactly \<open>max r 1 - 1\<close> times, three seconds each, every sleep between two
  attempts, before it returns an error.
\<close>

theorem connectWithRetry_attempts_and_delays:
  assumes "\<forall>n. connect_result env n c drv dsn \<noteq> None"
  shows "\<exists>e w'. connectWithRetry env c drv dsn r w = (Return (Inl e), w')
     \<and> attempts w' = attempts w + nat (max r 1)
     \<and> filter isSleep (trace w') =
         filter isSleep (trace w) @ replicate (nat (max r 1) - 1) (Sleep (3 * Second))
     \<and> filter (\<lambda>e. isConnectCall e \<or> isSleep e) (trace w') =
         filter (\<lambda>e. isConnectCall e \<or> isSleep e) (trace w)
         @ attemptsAndDelays drv dsn (nat (max r 1))"
proof -
  define retry where "retry = (if r \<le> 0 then 1 else r)"
  have pos: "0 < retry" "(0::int) \<le> retry" by (simp_all add: retry_def)
  have n: "nat (retry - 0) = nat (max r 1)" by (simp add: retry_def)
  from retryLoop_exhausted[OF assms pos(2), of "getNoPassDSN dsn" None w]
  obtain w1 where w1:
    "retryLoop env c drv dsn (getNoPassDSN dsn) retry 0 None w =
       (Inl (connect_result env (attempts w + nat (max r 1) - 1) c drv dsn), w1)"
    "attempts w1 = attempts w + nat (max r 1)"
    "filter isSleep (trace w1) =
       filter isSleep (trace w) @ replicate (nat (max r 1) - 1) (Sleep (Second * 3))"
    "filter (\<lambda>e. isConnectCall e \<or> isSleep e) (trace w1) =
       filter (\<lambda>e. isConnectCall e \<or> isSleep e) (trace w)
       @ attemptsAndDelays drv dsn (nat (max r 1))"
    using pos n by auto
  from assms obtain e where e: "connect_result env (attempts w + nat (max r 1) - 1) c drv dsn = Some e"
    by blast
  show ?thesis
    using w1 e
    by (simp add: connectWithRetry_def Let_def retry_def[symmetric] mult.commute)
qed



theorem connectWithRetry_attempts_and_delays_witness:
  "(\<forall>n. connect_result unreachable n Background ''postgres'' ''host=db'' \<noteq> None)
   \<and> (\<exists>e w'. connectWithRetry unreachable Background ''postgres'' ''host=db'' 3 emptyWorld
                 = (Return (Inl e), w')
         \<and> attempts w' = 3
         \<and> filter isSleep (trace w') = [Sleep 3000000000, Sleep 3000000000])
   \<and> (\<exists>e w'. connectWithRetry unreachable Background ''postgres'' ''host=db'' 0 emptyWorld
                 = (Return (Inl e), w')
         \<and> attempts w' = 1
         \<and> filter isSleep (trace w') = [])"
proof -
  have h: "\<forall>n. connect_result unreachable n Background ''postgres'' ''host=db'' \<noteq> None"
    by (simp add: unreachable_def)
  have three: "nat (max (3::int) 1) = 3" "nat (max (3::int) 1) - 1 = Suc (Suc 0)" by simp_all
  have zero: "nat (max (0::int) 1) = 1" by simp
  from connectWithRetry_attempts_and_delays[OF h, of 3 emptyWorld]
       connectWithRetry_attempts_and_delays[OF h, of 0 emptyWorld] h
  show ?thesis
    unfolding three zero
    by (auto simp: attempts_def emptyWorld_def Second_def numeral_2_eq_2)
qed

text \<open>
  C9. For every retry count and a target that refuses every attempt,
  \<open>connectWithRetry\<close> returns (it is a total function and the result is not a panic);
  what it returns is the error \<open>failed connect to database: e\<close>, where \<open>e\<close> is the
  error of the last attempt; the last thing it does is to write one error line with
  \<open>e\<close>, and it writes no other error line.
\<close>

theorem connectWithRetry_exhausted_error:
  assumes "\<forall>n. connect_result env n c drv dsn \<noteq> None"
  shows "\<exists>e w1. connectWithRetry env c drv dsn r w =
            (Return (Inl (''failed connect to database: '' @ e)),
             emit (Errorf (''sqldb: retry time exhausted, cannot connect to database: '' @ e)) w1)
         \<and> connect_result env (attempts w + nat (max r 1) - 1) c drv dsn = Some e
         \<and> filter isErrorf (trace w1) = filter isErrorf (trace w)"
proof -
  define retry where "retry = (if r \<le> 0 then 1 else r)"
  have pos: "0 < retry" "(0::int) \<le> retry" by (simp_all add: retry_def)
  have n: "nat (retry - 0) = nat (max r 1)" by (simp add: retry_def)
  from retryLoop_exhausted[OF assms pos(2), of "getNoPassDSN dsn" None w]
  obtain w1 where w1:
    "retryLoop env c drv dsn (getNoPassDSN dsn) retry 0 None w =
       (Inl (connect_result env (attempts w + nat (max r 1) - 1) c drv dsn), w1)"
    "filter isErrorf (trace w1) = filter isErrorf (trace w)"
    using pos n by auto
  from assms obtain e where e: "connect_result env (attempts w + nat (max r 1) - 1) c drv dsn = Some e"
    by blast
  show ?thesis
    using w1 e
    by (intro exI[of _ e] exI[of _ w1]) (simp add: connectWithRetry_def Let_def retry_def[symmetric])
qed


theorem connectWithRetry_exhausted_error_witness:
  "(\<forall>n. connect_result unreachable n Background ''postgres'' ''host=db'' \<noteq> None)
   \<and> (\<exists>e w1. connectWithRetry unreachable Background ''postgres'' ''host=db'' 2 emptyWorld =
            (Return (Inl (''failed connect to database: '' @ e)),
             emit (Errorf (''sqldb: retry time exhausted, cannot connect to database: '' @ e)) w1)
         \<and> e = ''connection refused''
         \<and> filter isErrorf (trace w1) = [])"
proof -
  have h: "\<forall>n. connect_result unreachable n Background ''postgres'' ''host=db'' \<noteq> None"
    by (simp add: unreachable_def)
  from connectWithRetry_exhausted_error[OF h, of 2 emptyWorld] h
  show ?thesis
    by (simp add: unreachable_def emptyWorld_def)
qed

subsection \<open>Connect\<close>

text \<open>
  C1, as the code has it. \<open>Connect\<close> does not look at the master DSN: an empty one
  goes to the connector like any other. With \<open>NoPingOnOpen\<close> off and a target that
  refuses every attempt on the empty DSN, \<open>Connect\<close> makes \<open>max (Retry cfg) 1\<close>
  attempts, sleeps three seconds \<open>max (Retry cfg) 1 - 1\<close> times, opens no pool, and
  returns the connector's error \<open>failed connect to database: e\<close>, \<open>e\<close> being the
  error of the last attempt.
\<close>

theorem Connect_empty_master_DSN:
  assumes "MasterDSN cfg = []" and "\<not> NoPingOnOpen cfg"
    and "\<forall>n. connect_result env n c (Driver cfg) [] \<noteq> None"
  shows "\<exists>e w'. Connect env c cfg w = (Return (Inl (''failed connect to database: '' @ e)), w')
     \<and> connect_result env (attempts w + nat (max (Retry cfg) 1) - 1) c (Driver cfg) [] = Some e
     \<and> attempts w' = attempts w + nat (max (Retry cfg) 1)
     \<and> filter isSleep (trace w') =
         filter isSleep (trace w) @ replicate (nat (max (Retry cfg) 1) - 1) (Sleep (3 * Second))
     \<and> pools w' = pools w"
proof -
  define r where "r = Retry cfg"
  define retry where "retry = (if r \<le> 0 then 1 else r)"
  have pos: "(0::int) \<le> retry" "0 < retry" by (simp_all add: retry_def)
  have n: "nat (retry - 0) = nat (max r 1)" by (simp add: retry_def)
  from retryLoop_exhausted[OF assms(3) pos(1), of "getNoPassDSN []" None w]
  obtain w1 where w1:
    "retryLoop env c (Driver cfg) [] (getNoPassDSN []) retry 0 None w =
       (Inl (connect_result env (attempts w + nat (max r 1) - 1) c (Driver cfg) []), w1)"
    "attempts w1 = attempts w + nat (max r 1)"
    "filter isSleep (trace w1) =
       filter isSleep (trace w) @ replicate (nat (max r 1) - 1) (Sleep (Second * 3))"
    "pools w1 = pools w"
    using pos n by auto
  from assms(3) obtain e
    where e: "connect_result env (attempts w + nat (max r 1) - 1) c (Driver cfg) [] = Some e"
    by blast
  have cwr: "connectWithRetry env c (Driver cfg) [] r w =
      (Return (Inl (''failed connect to database: '' @ e)),
       emit (Errorf (''sqldb: retry time exhausted, cannot connect to database: '' @ e)) w1)"
    using w1(1) e by (simp add: connectWithRetry_def Let_def retry_def[symmetric])
  have "Connect env c cfg w =
      (Return (Inl (''failed connect to database: '' @ e)),
       emit (Errorf (''sqldb: retry time exhausted, cannot connect to database: '' @ e)) w1)"
    using assms(1,2) cwr by (simp add: Connect_def openOrConnect_def r_def)
  then show ?thesis
    using w1(2-4) e by (simp add: r_def mult.commute)
qed

theorem Connect_empty_master_DSN_witness:
  "MasterDSN \<lparr>Driver = ''postgres'', MasterDSN = [], FollowerDSN = [], MaxOpenConnections = 0,
      MaxIdleConnections = 0, ConnectionMaxLifetime = 0, Retry = 2, NoPingOnOpen = False\<rparr> = []
   \<and> \<not> NoPingOnOpen \<lparr>Driver = ''postgres'', MasterDSN = [], FollowerDSN = [], MaxOpenConnections = 0,
      MaxIdleConnections = 0, ConnectionMaxLifetime = 0, Retry = 2, NoPingOnOpen = False\<rparr>
   \<and> (\<forall>n. connect_result unreachable n Background ''postgres'' [] \<noteq> None)
   \<and> (\<exists>e w'. Connect unreachable Background
         \<lparr>Driver = ''postgres'', MasterDSN = [], FollowerDSN = [], MaxOpenConnections = 0,
          MaxIdleConnections = 0, ConnectionMaxLifetime = 0, Retry = 2, NoPingOnOpen = False\<rparr>
         emptyWorld = (Return (Inl (''failed connect to database: '' @ e)), w')
       \<and> attempts w' = 2
       \<and> filter isSleep (trace w') = [Sleep 3000000000])"
proof -
  let ?cfg = "\<lparr>Driver = ''postgres'', MasterDSN = [], FollowerDSN = [], MaxOpenConnections = 0,
      MaxIdleConnections = 0, ConnectionMaxLifetime = 0, Retry = 2, NoPingOnOpen = False\<rparr>"
  have h: "\<forall>n. connect_result unreachable n Background (Driver ?cfg) [] \<noteq> None"
    by (simp add: unreachable_def)
  have two: "nat (max (2::int) 1) = 2" "nat (max (2::int) 1) - 1 = Suc 0" by simp_all
  from Connect_empty_master_DSN[of ?cfg unreachable Background emptyWorld, OF _ _ h] h
  show ?thesis
    by (auto simp: attempts_def emptyWorld_def Second_def two)
qed


text \<open>
  C1, as the claim has it, fails: with an empty master DSN, \<open>Retry = 2\<close> and a target
  that refuses every attempt, \<open>Connect\<close> calls the driver twice and sleeps three
  seconds in between before it reports the failure.
\<close>

theorem Connect_empty_master_DSN_is_retried:
  "Connect unreachable Background
     \<lparr>Driver = ''postgres'', MasterDSN = [], FollowerDSN = [], MaxOpenConnections = 0,
      MaxIdleConnections = 0, ConnectionMaxLifetime = 0, Retry = 2, NoPingOnOpen = False\<rparr>
     emptyWorld
   = (Return (Inl ''failed connect to database: connection refused''),
      \<lparr>trace = [ConnectCall ''postgres'' [],
                Warnf ''SQLDB: failed to connect to  with error connection refused'',
                Warnf ''sqldb: retrying to connect to . Retry: 1'',
                Sleep 3000000000,
                ConnectCall ''postgres'' [],
                Warnf ''SQLDB: failed to connect to  with error connection refused'',
                Errorf ''sqldb: retry time exhausted, cannot connect to database: connection refused''],
       pools = []\<rparr>)"
  by code_simp


text \<open>Where a pool that has been opened lives, and what \<open>tune\<close> keeps.\<close>

lemma connect_Inr:
  "connect env c drv dsn w = (Inr h, w') \<Longrightarrow>
     h = length (pools w) \<and> pools w' = pools w @ [newPool drv dsn]"
  by (auto simp: connect_def Let_def split: option.splits)

lemma connect_Inl:
  "connect env c drv dsn w = (Inl e, w') \<Longrightarrow> pools w' = pools w"
  by (auto simp: connect_def Let_def split: option.splits)

lemma retryLoop_opened:
  "retryLoop env c drv dsn np retry x err w = (Inr h, w') \<Longrightarrow>
     h = length (pools w) \<and> pools w' = pools w @ [newPool drv dsn]"
proof (induction env c drv dsn np retry x err w rule: retryLoop.induct)
  case (1 env c drv dsn np retry x err w)
  show ?case
  proof (cases "x < retry")
    case False
    with "1.prems" show ?thesis by (simp add: retryLoop.simps)
  next
    case True
    obtain r w1 where c1: "connect env c drv dsn w = (r, w1)" by (cases "connect env c drv dsn w")
    show ?thesis
    proof (cases r)
      case (Inr db)
      with "1.prems" True c1 have "db = h" "w1 = w'" by (simp_all add: retryLoop.simps)
      with c1 Inr show ?thesis using connect_Inr by blast
    next
      case (Inl e)
      define w2 where "w2 = emit (Warnf (''SQLDB: failed to connect to '' @ np @ '' with error '' @ e)) w1"
      define w3 where "w3 = (if x + 1 < retry
                        then emit (Sleep (Second * 3))
                               (emit (Warnf (''sqldb: retrying to connect to '' @ np
                                             @ ''. Retry: '' @ itoa (x + 1))) w2)
                        else w2)"
      have c1': "connect env c drv dsn w = (Inl e, w1)" using c1 Inl by simp
      have unfold: "retryLoop env c drv dsn np retry x err w
          = retryLoop env c drv dsn np retry (x + 1) (Some e) w3"
        using True c1' by (subst retryLoop.simps) (simp add: w2_def w3_def Let_def)
      with "1.prems" have "retryLoop env c drv dsn np retry (x + 1) (Some e) w3 = (Inr h, w')"
        by simp
      from "1.IH"[OF True c1'[symmetric] refl w2_def w3_def this]
      have "h = length (pools w3) \<and> pools w' = pools w3 @ [newPool drv dsn]" .
      moreover have "pools w3 = pools w"
        using connect_Inl[OF c1'] by (simp add: w3_def w2_def)
      ultimately show ?thesis by simp
    qed
  qed
qed

lemma openOrConnect_opened:
  "openOrConnect env c drv dsn retry noPing w = (Return (Inr h), w') \<Longrightarrow>
     h = length (pools w) \<and> pools w' = pools w @ [newPool drv dsn]"
proof (cases noPing)
  case True
  assume "openOrConnect env c drv dsn retry noPing w = (Return (Inr h), w')"
  with True show ?thesis
    by (auto simp: openOrConnect_def sqlx_Open_def Let_def split: option.splits)
next
  case False
  assume a: "openOrConnect env c drv dsn retry noPing w = (Return (Inr h), w')"
  obtain res w1 where l: "retryLoop env c drv dsn (getNoPassDSN dsn) (if retry \<le> 0 then 1 else retry) 0 None w = (res, w1)"
    by (cases "retryLoop env c drv dsn (getNoPassDSN dsn) (if retry \<le> 0 then 1 else retry) 0 None w")
  from a False l have "res = Inr h" "w1 = w'"
    by (auto simp: openOrConnect_def connectWithRetry_def Let_def split: sum.splits option.splits)
  with l retryLoop_opened show ?thesis by blast
qed

lemma length_pools_setPool [simp]: "length (pools (setPool h f w)) = length (pools w)"
  by (simp add: setPool_def)

lemma tune_handles:
  "tune cfg m f w = (db, w') \<Longrightarrow>
     master db = m \<and> follower db = f \<and> Master db = m \<and> Follower db = f
     \<and> defaultTimeout db = 3 * Second \<and> length (pools w') = length (pools w)"
  by (auto simp: tune_def Let_def insertDriver_def newFromSqlxDB_def SetMaxIdleConns_def
      SetMaxOpenConns_def SetConnMaxLifetime_def split: if_splits)


text \<open>
  C7. For every configuration with an empty follower DSN for which \<open>Connect\<close>
  returns a database, the follower field holds the same address as the master field;
  it is the address of the one pool that \<open>Connect\<close> opened, no second pool exists,
  and preparing a read statement is the same call on the same pool as preparing a
  write statement.
\<close>

theorem Connect_follower_aliases_master:
  assumes "FollowerDSN cfg = []" and "Connect env c cfg w = (Return (Inr db), w')"
  shows "follower db = master db \<and> Follower db = Master db
     \<and> GetFollower db = GetMaster db
     \<and> master db = length (pools w)
     \<and> length (pools w') = length (pools w) + 1
     \<and> PrepareRead env db c q w'' = PrepareWrite env db c q w''"
proof -
  obtain r w1 where o: "openOrConnect env c (Driver cfg) (MasterDSN cfg) (Retry cfg) (NoPingOnOpen cfg) w = (r, w1)"
    by (cases "openOrConnect env c (Driver cfg) (MasterDSN cfg) (Retry cfg) (NoPingOnOpen cfg) w")
  from assms o obtain m where r: "r = Return (Inr m)" and t: "tune cfg m m w1 = (db, w')"
    by (auto simp: Connect_def split: outcome.splits sum.splits prod.splits)
  from openOrConnect_opened[OF o[unfolded r]]
  have m: "m = length (pools w)" "pools w1 = pools w @ [newPool (Driver cfg) (MasterDSN cfg)]" by simp_all
  from tune_handles[OF t] m show ?thesis
    by (simp add: GetFollower_def GetMaster_def PrepareRead_def PrepareWrite_def)
qed


theorem Connect_follower_aliases_master_witness:
  "FollowerDSN \<lparr>Driver = ''postgres'', MasterDSN = ''host=db'', FollowerDSN = [],
      MaxOpenConnections = 10, MaxIdleConnections = 5, ConnectionMaxLifetime = 0, Retry = 3,
      NoPingOnOpen = False\<rparr> = []
   \<and> (\<exists>db w'. Connect reachable Background
         \<lparr>Driver = ''postgres'', MasterDSN = ''host=db'', FollowerDSN = [],
          MaxOpenConnections = 10, MaxIdleConnections = 5, ConnectionMaxLifetime = 0, Retry = 3,
          NoPingOnOpen = False\<rparr> emptyWorld = (Return (Inr db), w')
       \<and> follower db = master db \<and> master db = 0 \<and> length (pools w') = 1)"
proof -
  let ?cfg = "\<lparr>Driver = ''postgres'', MasterDSN = ''host=db'', FollowerDSN = [],
      MaxOpenConnections = 10, MaxIdleConnections = 5, ConnectionMaxLifetime = 0, Retry = 3,
      NoPingOnOpen = False\<rparr>"
  have e: "Connect reachable Background ?cfg emptyWorld =
      (Return (Inr \<lparr>Master = 0, Follower = 0, master = 0, follower = 0, driver = ''postgres'',
                    defaultTimeout = 3000000000\<rparr>),
       \<lparr>trace = [ConnectCall ''postgres'' ''host=db''],
        pools = [\<lparr>driverName = ''postgres'', dataSource = ''host=db'', maxIdleConns = Some 5,
                  maxOpenConns = Some 10, connMaxLifetime = None\<rparr>]\<rparr>)"
    by code_simp
  have f: "FollowerDSN ?cfg = []" by simp
  from Connect_follower_aliases_master[OF f e] e
  show ?thesis
    by (simp add: emptyWorld_def)
qed

subsection \<open>Prepared statements\<close>

text \<open>
  C8, as the code has it. For every routed database and every query, a statement
  that \<open>PrepareWrite\<close> returns was prepared on the pool in the master field, and
  executing it runs on that pool; a statement that \<open>PrepareRead\<close> returns was prepared
  on the pool in the follower field, and runs there. When the two fields hold different
  pools, a write statement is not bound to the follower's pool and a read statement is
  not bound to the master's.
\<close>

theorem Prepare_binds_by_role:
  "(PrepareWrite env db c q w = (Inr st, w') \<longrightarrow>
      stmt_db st = master db \<and> stmt_query st = q
      \<and> trace w' = trace w @ [PrepareCall (master db) q]
      \<and> trace (WriteStatement_ExecContext st w'') = trace w'' @ [StmtExec (master db) q]
      \<and> (follower db \<noteq> master db \<longrightarrow> stmt_db st \<noteq> follower db))
   \<and> (PrepareRead env db c q w = (Inr st, w') \<longrightarrow>
      stmt_db st = follower db \<and> stmt_query st = q
      \<and> trace w' = trace w @ [PrepareCall (follower db) q]
      \<and> trace (ReadStatement_QueryContext st w'') = trace w'' @ [StmtQuery (follower db) q]
      \<and> (follower db \<noteq> master db \<longrightarrow> stmt_db st \<noteq> master db))"
  by (auto simp: PrepareWrite_def PrepareRead_def PreparexContext_def Let_def
      WriteStatement_ExecContext_def ReadStatement_QueryContext_def split: option.splits)

theorem Prepare_binds_by_role_witness:
  "PrepareWrite reachable (NewFromDB 0 1 ''postgres'') Background ''UPDATE t SET a = 1'' emptyWorld
     = (Inr \<lparr>stmt_db = 0, stmt_query = ''UPDATE t SET a = 1''\<rparr>,
        \<lparr>trace = [PrepareCall 0 ''UPDATE t SET a = 1''], pools = []\<rparr>)
   \<and> PrepareRead reachable (NewFromDB 0 1 ''postgres'') Background ''SELECT 1'' emptyWorld
     = (Inr \<lparr>stmt_db = 1, stmt_query = ''SELECT 1''\<rparr>,
        \<lparr>trace = [PrepareCall 1 ''SELECT 1''], pools = []\<rparr>)
   \<and> follower (NewFromDB 0 1 ''postgres'') \<noteq> master (NewFromDB 0 1 ''postgres'')
   \<and> stmt_db \<lparr>stmt_db = 0, stmt_query = ''UPDATE t SET a = 1''\<rparr> \<noteq> follower (NewFromDB 0 1 ''postgres'')
   \<and> stmt_db \<lparr>stmt_db = 1, stmt_query = ''SELECT 1''\<rparr> \<noteq> master (NewFromDB 0 1 ''postgres'')"
proof -
  have w: "PrepareWrite reachable (NewFromDB 0 1 ''postgres'') Background ''UPDATE t SET a = 1'' emptyWorld
     = (Inr \<lparr>stmt_db = 0, stmt_query = ''UPDATE t SET a = 1''\<rparr>,
        \<lparr>trace = [PrepareCall 0 ''UPDATE t SET a = 1''], pools = []\<rparr>)"
    by code_simp
  have r: "PrepareRead reachable (NewFromDB 0 1 ''postgres'') Background ''SELECT 1'' emptyWorld
     = (Inr \<lparr>stmt_db = 1, stmt_query = ''SELECT 1''\<rparr>,
        \<lparr>trace = [PrepareCall 1 ''SELECT 1''], pools = []\<rparr>)"
    by code_simp
  have d: "follower (NewFromDB 0 1 ''postgres'') \<noteq> master (NewFromDB 0 1 ''postgres'')"
    by (simp add: NewFromDB_def newFromSqlxDB_def insertDriver_def)
  have a: "stmt_db \<lparr>stmt_db = 0, stmt_query = ''UPDATE t SET a = 1''\<rparr>
            \<noteq> follower (NewFromDB 0 1 ''postgres'')"
    using Prepare_binds_by_role[THEN conjunct1, rule_format, OF w] d by blast
  have b: "stmt_db \<lparr>stmt_db = 1, stmt_query = ''SELECT 1''\<rparr>
            \<noteq> master (NewFromDB 0 1 ''postgres'')"
    using Prepare_binds_by_role[THEN conjunct2, rule_format, OF r] d by blast
  from w r d a b show ?thesis by blast
qed

text \<open>
  C8, as the claim has it, fails where the follower is the master: after \<open>Connect\<close>
  with an empty follower DSN, the statement of \<open>PrepareRead\<close> is bound to the pool at
  address 0, which is the master.
\<close>

theorem PrepareRead_on_aliased_follower_is_bound_to_master:
  "Connect reachable Background
     \<lparr>Driver = ''postgres'', MasterDSN = ''host=db'', FollowerDSN = [],
      MaxOpenConnections = 0, MaxIdleConnections = 0, ConnectionMaxLifetime = 0, Retry = 1,
      NoPingOnOpen = False\<rparr> emptyWorld
     = (Return (Inr \<lparr>Master = 0, Follower = 0, master = 0, follower = 0, driver = ''postgres'',
                    defaultTimeout = 3000000000\<rparr>),
        \<lparr>trace = [ConnectCall ''postgres'' ''host=db''],
         pools = [\<lparr>driverName = ''postgres'', dataSource = ''host=db'', maxIdleConns = None,
                   maxOpenConns = None, connMaxLifetime = None\<rparr>]\<rparr>)
   \<and> PrepareRead reachable
        \<lparr>Master = 0, Follower = 0, master = 0, follower = 0, driver = ''postgres'',
         defaultTimeout = 3000000000\<rparr> Background ''SELECT 1''
        \<lparr>trace = [ConnectCall ''postgres'' ''host=db''],
         pools = [\<lparr>driverName = ''postgres'', dataSource = ''host=db'', maxIdleConns = None,
                   maxOpenConns = None, connMaxLifetime = None\<rparr>]\<rparr>
     = (Inr \<lparr>stmt_db = 0, stmt_query = ''SELECT 1''\<rparr>,
        \<lparr>trace = [ConnectCall ''postgres'' ''host=db'', PrepareCall 0 ''SELECT 1''],
         pools = [\<lparr>driverName = ''postgres'', dataSource = ''host=db'', maxIdleConns = None,
                   maxOpenConns = None, connMaxLifetime = None\<rparr>]\<rparr>)
   \<and> stmt_db \<lparr>stmt_db = 0, stmt_query = ''SELECT 1''\<rparr>
       = master \<lparr>Master = 0, Follower = 0, master = 0, follower = 0, driver = ''postgres'',
                 defaultTimeout = 3000000000\<rparr>"
  by code_simp


subsection \<open>Health checks\<close>

text \<open>The receive loop on what the channel can hold.\<close>

lemma recvLoop_empty: "recvLoop 0 [] 0 = Never"
  by (simp add: recvLoop.simps)

lemma recvLoop_one:
  "recvLoop 0 [(t, e)] 0 = (case e of Some x \<Rightarrow> At t (Some x) | None \<Rightarrow> Never)"
  by (simp add: recvLoop.simps split: option.splits)

lemma recvLoop_two:
  "recvLoop 0 [(t1, e1), (t2, e2)] 0 =
     (case e1 of Some x \<Rightarrow> At t1 (Some x) | None \<Rightarrow> At (max t1 t2) e2)"
  by (simp add: recvLoop.simps split: option.splits)

lemma PingContext_both_return:
  assumes "ping_result env (master db) c 0 = At tm em"
    and "ping_result env (follower db) c 1 = At tf ef"
  shows "PingContext env tie db c =
     (if tm < tf \<or> (tm = tf \<and> tie = MasterFirst)
      then (case em of Some x \<Rightarrow> At tm (Some x) | None \<Rightarrow> At (max tm tf) ef)
      else (case ef of Some x \<Rightarrow> At tf (Some x) | None \<Rightarrow> At (max tf tm) em))"
  using assms by (simp add: PingContext_def Let_def recvLoop_two)

lemma PingContext_cases:
  "PingContext env tie db c =
     (case (ping_result env (master db) c 0, ping_result env (follower db) c 1) of
        (At tm em, At tf ef) \<Rightarrow>
          (if tm < tf \<or> (tm = tf \<and> tie = MasterFirst)
           then (case em of Some x \<Rightarrow> At tm (Some x) | None \<Rightarrow> At (max tm tf) ef)
           else (case ef of Some x \<Rightarrow> At tf (Some x) | None \<Rightarrow> At (max tf tm) em))
      | (At tm em, Never) \<Rightarrow> (case em of Some x \<Rightarrow> At tm (Some x) | None \<Rightarrow> Never)
      | (Never, At tf ef) \<Rightarrow> (case ef of Some x \<Rightarrow> At tf (Some x) | None \<Rightarrow> Never)
      | (Never, Never) \<Rightarrow> Never)"
  by (simp add: PingContext_def Let_def recvLoop_two recvLoop_one recvLoop_empty
      split: timed.splits)






text \<open>
  C4. \<open>PingContext\<close> and \<open>Ping\<close> return nil if and only if both probes return nil;
  when either probe returns an error, so does the health check, whatever the other
  probe does.
\<close>

theorem PingContext_nil_iff_both_succeed:
  "((\<exists>t. PingContext env tie db c = At t None) \<longleftrightarrow>
      (\<exists>tm tf. ping_result env (master db) c 0 = At tm None
              \<and> ping_result env (follower db) c 1 = At tf None))
   \<and> ((\<exists>t. Ping env tie db = At t None) \<longleftrightarrow>
      (\<exists>tm tf. ping_result env (master db) (WithTimeout Background (defaultTimeout db)) 0
                  = At tm None
              \<and> ping_result env (follower db) (WithTimeout Background (defaultTimeout db)) 1
                  = At tf None))
   \<and> ((\<exists>t e. ping_result env (master db) c 0 = At t (Some e))
        \<or> (\<exists>t e. ping_result env (follower db) c 1 = At t (Some e))
       \<longrightarrow> (\<exists>t e. PingContext env tie db c = At t (Some e)))"
proof -
  have iff: "\<And>c. (\<exists>t. PingContext env tie db c = At t None) \<longleftrightarrow>
      (\<exists>tm tf. ping_result env (master db) c 0 = At tm None
              \<and> ping_result env (follower db) c 1 = At tf None)"
    by (auto simp: PingContext_cases split: timed.splits option.splits if_splits)
  have err: "(\<exists>t e. ping_result env (master db) c 0 = At t (Some e))
        \<or> (\<exists>t e. ping_result env (follower db) c 1 = At t (Some e))
       \<longrightarrow> (\<exists>t e. PingContext env tie db c = At t (Some e))"
    by (auto simp: PingContext_cases split: timed.splits option.splits if_splits)
  show ?thesis
    using iff err by (simp add: Ping_def)
qed

theorem PingContext_nil_iff_both_succeed_witness:
  "(\<exists>t e. ping_result bothDown (follower (NewFromDB 0 1 ''postgres'')) Background 1
             = At t (Some e))
   \<and> (\<exists>t e. PingContext bothDown MasterFirst (NewFromDB 0 1 ''postgres'') Background
             = At t (Some e))"
proof -
  have f: "\<exists>t e. ping_result bothDown (follower (NewFromDB 0 1 ''postgres'')) Background 1
             = At t (Some e)"
    by (simp add: bothDown_def NewFromDB_def newFromSqlxDB_def insertDriver_def)
  from PingContext_nil_iff_both_succeed[of bothDown MasterFirst "NewFromDB 0 1 ''postgres''"
         Background, THEN conjunct2, THEN conjunct2] f
  show ?thesis by blast
qed

lemma Connect_defaultTimeout:
  "Connect env c cfg w = (Return (Inr db), w') \<Longrightarrow> defaultTimeout db = 3 * Second"
  by (auto simp: Connect_def tune_def Let_def insertDriver_def newFromSqlxDB_def
      split: outcome.splits sum.splits prod.splits if_splits)

lemma honoursDeadline_hanging: "honoursDeadline hanging"
  by (simp add: honoursDeadline_def hanging_def)


text \<open>
  C10, as the code has it. \<open>Ping\<close> is \<open>PingContext\<close> under a context made from the
  background context with the database's default timeout, which every constructor sets
  to three seconds. \<open>PingContext\<close> receives from the channel and does not look at the
  deadline itself: when no probe reports an error, \<open>Ping\<close> returns when the slower
  probe does, and does not return when a probe never does. So \<open>Ping\<close> returns within
  three seconds with a driver whose probes return by the deadline of their context.
\<close>

theorem Ping_is_PingContext_with_three_seconds:
  "Ping env tie db = PingContext env tie db (WithTimeout Background (defaultTimeout db))
   \<and> defaultTimeout (newFromSqlxDB m f) = 3 * Second
   \<and> defaultTimeout (NewFromDB m f drv) = 3 * Second
   \<and> (Connect env c cfg w = (Return (Inr db'), w') \<longrightarrow> defaultTimeout db' = 3 * Second)
   \<and> deadline (WithTimeout Background (3 * Second)) = Some 3000000000
   \<and> (defaultTimeout db = 3 * Second \<and> honoursDeadline env \<longrightarrow>
        (\<exists>t e. Ping env tie db = At t e \<and> t \<le> 3000000000))
   \<and> (ping_result env (master db) (WithTimeout Background (defaultTimeout db)) 0 = At tm None
        \<and> ping_result env (follower db) (WithTimeout Background (defaultTimeout db)) 1 = At tf None
        \<longrightarrow> Ping env tie db = At (max tm tf) None)
   \<and> ((ping_result env (master db) (WithTimeout Background (defaultTimeout db)) 0 = Never
         \<and> (\<forall>t e. ping_result env (follower db) (WithTimeout Background (defaultTimeout db)) 1
                    \<noteq> At t (Some e)))
        \<or> (ping_result env (follower db) (WithTimeout Background (defaultTimeout db)) 1 = Never
            \<and> (\<forall>t e. ping_result env (master db) (WithTimeout Background (defaultTimeout db)) 0
                       \<noteq> At t (Some e)))
        \<longrightarrow> Ping env tie db = Never)"
proof -
  have d: "deadline (WithTimeout Background (3 * Second)) = Some 3000000000"
    by (simp add: WithTimeout_def Background_def Second_def)
  have bound: "\<exists>t e. Ping env tie db = At t e \<and> t \<le> 3000000000"
    if dt: "defaultTimeout db = 3 * Second" and h: "honoursDeadline env"
  proof -
    let ?c = "WithTimeout Background (3 * Second)"
    from h d obtain tm em where m: "ping_result env (master db) ?c 0 = At tm em" "tm \<le> 3000000000"
      unfolding honoursDeadline_def by blast
    from h d obtain tf ef where f: "ping_result env (follower db) ?c 1 = At tf ef" "tf \<le> 3000000000"
      unfolding honoursDeadline_def by blast
    show ?thesis
      using m(2) f(2)
      by (auto simp: Ping_def dt PingContext_both_return[OF m(1) f(1)] split: option.splits)
  qed
  let ?c = "WithTimeout Background (defaultTimeout db)"
  have slower: "Ping env tie db = At (max tm tf) None"
    if m: "ping_result env (master db) ?c 0 = At tm None"
      and f: "ping_result env (follower db) ?c 1 = At tf None"
    by (simp add: Ping_def PingContext_both_return[OF m f] max.commute)
  have blocked: "Ping env tie db = Never"
    if "(ping_result env (master db) ?c 0 = Never
           \<and> (\<forall>t e. ping_result env (follower db) ?c 1 \<noteq> At t (Some e)))
        \<or> (ping_result env (follower db) ?c 1 = Never
           \<and> (\<forall>t e. ping_result env (master db) ?c 0 \<noteq> At t (Some e)))"
    using that
    by (auto simp: Ping_def PingContext_cases split: timed.splits option.splits)
  have first: "defaultTimeout (newFromSqlxDB m f) = 3 * Second
      \<and> defaultTimeout (NewFromDB m f drv) = 3 * Second"
    by (simp add: newFromSqlxDB_def NewFromDB_def insertDriver_def)
  show ?thesis
    using d bound Connect_defaultTimeout slower blocked first
    by (simp add: Ping_def)
qed


theorem Ping_is_PingContext_with_three_seconds_witness:
  "defaultTimeout (NewFromDB 0 1 ''postgres'') = 3 * Second \<and> honoursDeadline hanging
   \<and> Ping hanging MasterFirst (NewFromDB 0 1 ''postgres'')
       = At 3000000000 (Some ''context deadline exceeded'')
   \<and> (\<exists>t e. Ping hanging MasterFirst (NewFromDB 0 1 ''postgres'') = At t e \<and> t \<le> 3000000000)
   \<and> PingContext hanging MasterFirst (NewFromDB 0 1 ''postgres'') Background = Never
   \<and> Ping reachable MasterFirst (NewFromDB 0 1 ''postgres'') = At (max 0 0) None
   \<and> Ping deaf MasterFirst (NewFromDB 0 1 ''postgres'') = Never
   \<and> (\<exists>db w'. Connect reachable Background
          \<lparr>Driver = ''nrpostgres'', MasterDSN = ''host=db'', FollowerDSN = ''host=replica'',
           MaxOpenConnections = 0, MaxIdleConnections = 0, ConnectionMaxLifetime = 0,
           Retry = 0, NoPingOnOpen = True\<rparr> emptyWorld = (Return (Inr db), w')
         \<and> defaultTimeout db = 3 * Second)"
proof -
  have run: "Connect reachable Background
          \<lparr>Driver = ''nrpostgres'', MasterDSN = ''host=db'', FollowerDSN = ''host=replica'',
           MaxOpenConnections = 0, MaxIdleConnections = 0, ConnectionMaxLifetime = 0,
           Retry = 0, NoPingOnOpen = True\<rparr> emptyWorld
       = (Return (Inr \<lparr>Master = 0, Follower = 1, master = 0, follower = 1, driver = ''postgres'',
                     defaultTimeout = 3000000000\<rparr>),
          \<lparr>trace = [OpenCall ''nrpostgres'' ''host=db'', OpenCall ''nrpostgres'' ''host=replica''],
           pools = [\<lparr>driverName = ''nrpostgres'', dataSource = ''host=db'', maxIdleConns = None,
                     maxOpenConns = None, connMaxLifetime = None\<rparr>,
                    \<lparr>driverName = ''nrpostgres'', dataSource = ''host=replica'',
                     maxIdleConns = None, maxOpenConns = None, connMaxLifetime = None\<rparr>]\<rparr>)"
    by code_simp
  from Ping_is_PingContext_with_three_seconds[THEN conjunct2, THEN conjunct2, THEN conjunct2,
      THEN conjunct1, rule_format, OF run] run
  have con: "\<exists>db w'. Connect reachable Background
          \<lparr>Driver = ''nrpostgres'', MasterDSN = ''host=db'', FollowerDSN = ''host=replica'',
           MaxOpenConnections = 0, MaxIdleConnections = 0, ConnectionMaxLifetime = 0,
           Retry = 0, NoPingOnOpen = True\<rparr> emptyWorld = (Return (Inr db), w')
         \<and> defaultTimeout db = 3 * Second"
    by blast
  have dt: "defaultTimeout (NewFromDB 0 1 ''postgres'') = 3 * Second"
    by (simp add: NewFromDB_def newFromSqlxDB_def insertDriver_def)
  have p: "Ping hanging MasterFirst (NewFromDB 0 1 ''postgres'')
       = At 3000000000 (Some ''context deadline exceeded'')"
    by (simp add: Ping_def PingContext_def hanging_def NewFromDB_def newFromSqlxDB_def
        insertDriver_def WithTimeout_def Background_def Second_def Let_def recvLoop_two)
  have n: "PingContext hanging MasterFirst (NewFromDB 0 1 ''postgres'') Background = Never"
    by (simp add: PingContext_def hanging_def Background_def Let_def recvLoop_empty)
  have rm: "ping_result reachable (master (NewFromDB 0 1 ''postgres''))
              (WithTimeout Background (defaultTimeout (NewFromDB 0 1 ''postgres''))) 0 = At 0 None"
    and rf: "ping_result reachable (follower (NewFromDB 0 1 ''postgres''))
              (WithTimeout Background (defaultTimeout (NewFromDB 0 1 ''postgres''))) 1 = At 0 None"
    by (simp_all add: reachable_def)
  have dm: "ping_result deaf (master (NewFromDB 0 1 ''postgres''))
              (WithTimeout Background (defaultTimeout (NewFromDB 0 1 ''postgres''))) 0 = Never"
    and df: "\<forall>t e. ping_result deaf (follower (NewFromDB 0 1 ''postgres''))
              (WithTimeout Background (defaultTimeout (NewFromDB 0 1 ''postgres''))) 1
                \<noteq> At t (Some e)"
    by (simp_all add: deaf_def NewFromDB_def newFromSqlxDB_def insertDriver_def)
  note t = Ping_is_PingContext_with_three_seconds[of _ _ "NewFromDB 0 1 ''postgres''"]
  from t[of hanging MasterFirst] dt honoursDeadline_hanging
  have b: "\<exists>t e. Ping hanging MasterFirst (NewFromDB 0 1 ''postgres'') = At t e \<and> t \<le> 3000000000"
    by blast
  from t[of reachable MasterFirst, THEN conjunct2, THEN conjunct2, THEN conjunct2, THEN conjunct2,
         THEN conjunct2, THEN conjunct2, THEN conjunct1, rule_format, OF conjI, OF rm rf]
  have s: "Ping reachable MasterFirst (NewFromDB 0 1 ''postgres'') = At (max 0 0) None" .
  from t[of deaf MasterFirst, THEN conjunct2, THEN conjunct2, THEN conjunct2, THEN conjunct2,
         THEN conjunct2, THEN conjunct2, THEN conjunct2, rule_format, OF disjI1, OF conjI, OF dm df]
  have k: "Ping deaf MasterFirst (NewFromDB 0 1 ''postgres'') = Never" .
  from dt honoursDeadline_hanging p b n s k con show ?thesis by blast
qed

text \<open>
  C10, as the claim has it, fails. \<open>PingContext\<close> waits on the channel only: with a
  driver whose probes ignore their context, \<open>Ping\<close> on a database with the
  three-second default timeout does not return while the master's probe hangs, and
  returns after ten seconds when both probes answer after ten seconds.
\<close>

theorem Ping_blocks_past_three_seconds:
  "defaultTimeout (NewFromDB 0 1 ''postgres'') = 3 * Second
   \<and> Ping deaf MasterFirst (NewFromDB 0 1 ''postgres'') = Never
   \<and> defaultTimeout (NewFromDB 1 2 ''postgres'') = 3 * Second
   \<and> Ping deaf MasterFirst (NewFromDB 1 2 ''postgres'') = At 10000000000 None"
  by (simp add: Ping_def PingContext_def deaf_def NewFromDB_def newFromSqlxDB_def
      insertDriver_def Let_def recvLoop_one recvLoop_two)

subsection \<open>Credential redaction\<close>




























end
